theory Spec2Isabelle
  imports Complex_Main "HOL-Library.Stream"
begin

section \<open>Machine integers and durations\<close>

text \<open>
  Go's \<open>int\<close> and \<open>time.Duration\<close> are 64-bit signed integers whose arithmetic wraps.
  They are modelled as \<open>int\<close>, with the wrap-around written out by \<open>wrap64\<close> at every
  operation whose operands come from the configuration. \<open>float64\<close> values are modelled
  as real numbers (no rounding, no NaN, no infinities).
\<close>

definition wrap64 :: "int \<Rightarrow> int" where
  "wrap64 x = (x + 2 ^ 63) mod 2 ^ 64 - 2 ^ 63"

text \<open>Integer division of Go truncates toward zero.\<close>

definition go_div :: "int \<Rightarrow> int \<Rightarrow> int" where
  "go_div a b = sgn a * sgn b * (\<bar>a\<bar> div \<bar>b\<bar>)"

text \<open>The conversion \<open>int(f)\<close> and \<open>time.Duration(f)\<close> of a float drops the fraction.\<close>

definition trunc :: "real \<Rightarrow> int" where
  "trunc x = (if 0 \<le> x then \<lfloor>x\<rfloor> else \<lceil>x\<rceil>)"

definition Millisecond :: int where
  "Millisecond = 1000000"

definition Second :: int where
  "Second = 1000000000"

section \<open>The random source\<close>

text \<open>
  \<open>s.rng\<close> is a \<open>*rand.Rand\<close> of the Go library. It is taken as a parameter: a stream
  of raw draws, one consumed by each call. \<open>Intn n\<close> panics for \<open>n \<le> 0\<close> and otherwise
  yields a value of \<open>[0, n)\<close>, every one of which some draw produces; \<open>Float64\<close> yields
  a value of \<open>[0, 1)\<close> on the 53-bit grid.
\<close>

type_synonym rng = "nat stream"

datatype error = IntnPanic | DailyLimitReached

definition Intn :: "rng \<Rightarrow> int \<Rightarrow> error + (int \<times> rng)" where
  "Intn g n = (if n \<le> 0 then Inl IntnPanic else Inr (int (shd g) mod n, stl g))"

definition Float64 :: "rng \<Rightarrow> real \<times> rng" where
  "Float64 g = (real (shd g mod 2 ^ 53) / 2 ^ 53, stl g)"

section \<open>Configuration (pkg/config/config.go)\<close>

record MouseMovementConfig =
  MouseMovement_Enabled :: bool
  BezierCurves :: bool
  OvershootProbability :: real
  MicroCorrections :: bool

record TimingConfig =
  Timing_Enabled :: bool
  MinThinkTime :: int
  MaxThinkTime :: int
  ScrollSpeedVariance :: real

record ScrollingConfig =
  Scrolling_Enabled :: bool
  VariableSpeed :: bool
  ScrollBackProbability :: real

record TypingConfig =
  Typing_Enabled :: bool
  MinKeystrokeDelay :: int
  MaxKeystrokeDelay :: int
  TypoProbability :: real

record HoveringConfig =
  Hovering_Enabled :: bool
  HoverProbability :: real
  HoverDurationMin :: int
  HoverDurationMax :: int

record SchedulingConfig =
  Scheduling_Enabled :: bool
  BusinessHoursOnly :: bool
  StartHour :: int
  EndHour :: int
  BreakProbability :: real

record StealthConfig =
  MouseMovement :: MouseMovementConfig
  Timing :: TimingConfig
  Scrolling :: ScrollingConfig
  Typing :: TypingConfig
  Hovering :: HoveringConfig
  Scheduling :: SchedulingConfig

record ConnectionConfig =
  DailyLimit :: int

record Config =
  Connections :: ConnectionConfig
  Stealth :: StealthConfig

section \<open>Effects on the page\<close>

text \<open>
  The functions of pkg/stealth act on the browser and on the clock. Their model returns
  the trace of these actions in order, one constructor for each call site, together with
  the outcome: the random source after the call, or the panic that stopped it. The trace
  holds what was done before a panic. Browser calls themselves are taken to succeed.

  A text is the sequence of code points that \<open>for _, char := range text\<close> walks.
\<close>

type_synonym rune = nat

datatype event =
    MustFocus                \<comment> \<open>\<open>el.MustFocus()\<close>\<close>
  | InputChar rune           \<comment> \<open>\<open>el.MustInput(string(char))\<close>, the character of the text\<close>
  | InputWrong               \<comment> \<open>\<open>el.MustInput("x")\<close>, the wrong character\<close>
  | InputBackspace           \<comment> \<open>\<open>el.MustInput("\b")\<close>, the backspace\<close>
  | Sleep int                \<comment> \<open>\<open>time.Sleep(d)\<close>, \<open>d\<close> in nanoseconds\<close>
  | ScrollBy int             \<comment> \<open>\<open>window.scrollBy(0, n)\<close>\<close>
  | MouseMove real real      \<comment> \<open>\<open>s.page.Mouse.Move(x, y, 0)\<close>\<close>

type_synonym outcome = "event list \<times> (error + rng)"

section \<open>HumanType\<close>

text \<open>The delay of one character: \<open>Intn(Max - Min) + Min\<close> milliseconds.\<close>

definition keystroke_delay :: "TypingConfig \<Rightarrow> rng \<Rightarrow> error + (int \<times> rng)" where
  "keystroke_delay tc g =
     (case Intn g (wrap64 (MaxKeystrokeDelay tc - MinKeystrokeDelay tc)) of
        Inl e \<Rightarrow> Inl e
      | Inr (k, g') \<Rightarrow> Inr (wrap64 (wrap64 (k + MinKeystrokeDelay tc) * Millisecond), g'))"

text \<open>The body of the loop, for one character.\<close>

definition type_char :: "TypingConfig \<Rightarrow> rng \<Rightarrow> rune \<Rightarrow> outcome" where
  "type_char tc g c =
     (if Typing_Enabled tc then
        (case keystroke_delay tc g of
           Inl e \<Rightarrow> ([InputChar c], Inl e)
         | Inr (delay, g1) \<Rightarrow>
             (let (u, g2) = Float64 g1 in
              if u < TypoProbability tc
              then ([InputChar c, InputWrong, Sleep delay, InputBackspace, Sleep delay,
                     Sleep delay], Inr g2)
              else ([InputChar c, Sleep delay], Inr g2)))
      else ([InputChar c], Inr g))"

fun type_loop :: "TypingConfig \<Rightarrow> rng \<Rightarrow> rune list \<Rightarrow> outcome" where
  "type_loop tc g [] = ([], Inr g)"
| "type_loop tc g (c # cs) =
     (case type_char tc g c of
        (evs, Inl e) \<Rightarrow> (evs, Inl e)
      | (evs, Inr g') \<Rightarrow> (let (evs', r) = type_loop tc g' cs in (evs @ evs', r)))"

definition HumanType :: "Config \<Rightarrow> rng \<Rightarrow> rune list \<Rightarrow> outcome" where
  "HumanType cfg g text =
     (let (evs, r) = type_loop (Typing (Stealth cfg)) g text in (MustFocus # evs, r))"

text \<open>The characters sent from the text itself, in order.\<close>

fun committed :: "event list \<Rightarrow> rune list" where
  "committed [] = []"
| "committed (InputChar c # es) = c # committed es"
| "committed (e # es) = committed es"

section \<open>RandomDelay, hoverOverElement, RandomBreak\<close>

definition RandomDelay :: "Config \<Rightarrow> rng \<Rightarrow> outcome" where
  "RandomDelay cfg g =
     (let tc = Timing (Stealth cfg) in
      if \<not> Timing_Enabled tc then ([], Inr g)
      else
        (let mn = MinThinkTime tc;
             mx = (if MaxThinkTime tc \<le> mn then wrap64 (mn + 1) else MaxThinkTime tc)
         in case Intn g (wrap64 (mx - mn)) of
              Inl e \<Rightarrow> ([], Inl e)
            | Inr (k, g') \<Rightarrow> ([Sleep (wrap64 (wrap64 (k + mn) * Millisecond))], Inr g')))"

definition hoverOverElement :: "Config \<Rightarrow> rng \<Rightarrow> outcome" where
  "hoverOverElement cfg g =
     (let hc = Hovering (Stealth cfg) in
      case Intn g (wrap64 (HoverDurationMax hc - HoverDurationMin hc)) of
        Inl e \<Rightarrow> ([], Inl e)
      | Inr (k, g') \<Rightarrow>
          ([Sleep (wrap64 (wrap64 (k + HoverDurationMin hc) * Millisecond))], Inr g'))"

definition RandomBreak :: "Config \<Rightarrow> rng \<Rightarrow> outcome" where
  "RandomBreak cfg g =
     (let sc = Scheduling (Stealth cfg) in
      if \<not> Scheduling_Enabled sc then ([], Inr g)
      else
        (let (u, g1) = Float64 g in
         if u < BreakProbability sc then
           (case Intn g1 300 of
              Inl e \<Rightarrow> ([], Inl e)
            | Inr (k, g2) \<Rightarrow> ([Sleep ((k + 60) * Second)], Inr g2))
         else ([], Inr g1)))"

section \<open>ScrollHumanLike\<close>

text \<open>The loop \<open>for i := 0; i < steps; i++\<close>; its body does not read \<open>i\<close>.\<close>

fun scroll_steps :: "real \<Rightarrow> real \<Rightarrow> rng \<Rightarrow> nat \<Rightarrow> outcome" where
  "scroll_steps stepSize v g 0 = ([], Inr g)"
| "scroll_steps stepSize v g (Suc n) =
     (let (u, g1) = Float64 g;
          variance = 1 + (u - 1 / 2) * v;
          actualStep = trunc (stepSize * variance)
      in case Intn g1 200 of
           Inl e \<Rightarrow> ([ScrollBy actualStep], Inl e)
         | Inr (k, g2) \<Rightarrow>
             (let (evs, r) = scroll_steps stepSize v g2 n
              in (ScrollBy actualStep # Sleep ((k + 50) * Millisecond) # evs, r)))"

text \<open>The occasional scroll back that ends the function.\<close>

definition scroll_back :: "Config \<Rightarrow> rng \<Rightarrow> int \<Rightarrow> outcome" where
  "scroll_back cfg g distance =
     (let (u, g1) = Float64 g in
      if u < ScrollBackProbability (Scrolling (Stealth cfg)) then
        (case Intn g1 (go_div distance 4) of
           Inl e \<Rightarrow> ([], Inl e)
         | Inr (b, g2) \<Rightarrow>
             (let backDistance = b + 10 in
              case Intn g2 1000 of
                Inl e \<Rightarrow> ([ScrollBy (- backDistance)], Inl e)
              | Inr (p, g3) \<Rightarrow>
                  ([ScrollBy (- backDistance), Sleep ((p + 500) * Millisecond)], Inr g3)))
      else ([], Inr g1))"

definition ScrollHumanLike :: "Config \<Rightarrow> rng \<Rightarrow> int \<Rightarrow> outcome" where
  "ScrollHumanLike cfg g distance =
     (if \<not> Scrolling_Enabled (Scrolling (Stealth cfg)) then ([ScrollBy distance], Inr g)
      else
        (case Intn g 10 of
           Inl e \<Rightarrow> ([], Inl e)
         | Inr (k, g1) \<Rightarrow>
             (let steps = k + 5;
                  stepSize = real_of_int distance / real_of_int steps
              in case scroll_steps stepSize (ScrollSpeedVariance (Timing (Stealth cfg))) g1
                        (nat steps) of
                   (evs, Inl e) \<Rightarrow> (evs, Inl e)
                 | (evs, Inr g2) \<Rightarrow>
                     (let (evs', r) = scroll_back cfg g2 distance in (evs @ evs', r)))))"

text \<open>The scroll deltas of a trace, in order.\<close>

fun deltas :: "event list \<Rightarrow> int list" where
  "deltas [] = []"
| "deltas (ScrollBy n # es) = n # deltas es"
| "deltas (e # es) = deltas es"

section \<open>moveMouseToElement\<close>

text \<open>\<open>el.MustBox()\<close> and the size of the window are answers of the browser.\<close>

record Box =
  Box_X :: real
  Box_Y :: real
  Box_Width :: real
  Box_Height :: real

record Window =
  innerWidth :: real
  innerHeight :: real

definition bezierCurve :: "real \<Rightarrow> real \<Rightarrow> real \<Rightarrow> real \<Rightarrow> real \<Rightarrow> real" where
  "bezierCurve t p0 p1 p2 p3 =
     (1 - t) ^ 3 * p0 + 3 * (1 - t) ^ 2 * t * p1 + 3 * (1 - t) * t ^ 2 * p2 + t ^ 3 * p3"

text \<open>The start, the target and the two control points drawn before the loop.\<close>

record Curve =
  currentX :: real
  currentY :: real
  cp1X :: real
  cp1Y :: real
  cp2X :: real
  cp2Y :: real
  targetX :: real
  targetY :: real

definition plan_curve :: "Box \<Rightarrow> Window \<Rightarrow> rng \<Rightarrow> Curve \<times> rng" where
  "plan_curve box vp g =
     (let (r1, g1) = Float64 g;
          tX = Box_X box + Box_Width box / 2 + (r1 - 1 / 2) * 20;
          (r2, g2) = Float64 g1;
          tY = Box_Y box + Box_Height box / 2 + (r2 - 1 / 2) * 20;
          cX = innerWidth vp / 2;
          cY = innerHeight vp / 2;
          (r3, g3) = Float64 g2;
          c1X = cX + (tX - cX) * (3 / 10) + (r3 - 1 / 2) * 30;
          (r4, g4) = Float64 g3;
          c1Y = cY + (tY - cY) * (3 / 10) + (r4 - 1 / 2) * 20;
          (r5, g5) = Float64 g4;
          c2X = cX + (tX - cX) * (6 / 10) + (r5 - 1 / 2) * 30;
          (r6, g6) = Float64 g5;
          c2Y = cY + (tY - cY) * (6 / 10) + (r6 - 1 / 2) * 20
      in (\<lparr>currentX = cX, currentY = cY, cp1X = c1X, cp1Y = c1Y, cp2X = c2X, cp2Y = c2Y,
           targetX = tX, targetY = tY\<rparr>, g6))"

text \<open>The point of the curve at parameter \<open>t\<close>, and the easing weight of the delay.\<close>

definition curve_point :: "Curve \<Rightarrow> real \<Rightarrow> real \<times> real" where
  "curve_point cv t =
     (bezierCurve t (currentX cv) (cp1X cv) (cp2X cv) (targetX cv),
      bezierCurve t (currentY cv) (cp1Y cv) (cp2Y cv) (targetY cv))"

definition ease :: "real \<Rightarrow> real" where
  "ease t = t * t * (3 - 2 * t)"

text \<open>
  The micro-correction of one step: \<open>Float64\<close> is drawn only when micro-corrections are
  on (\<open>&&\<close> evaluates its right operand only then).
\<close>

definition jitter :: "bool \<Rightarrow> real \<times> real \<Rightarrow> rng \<Rightarrow> (real \<times> real) \<times> rng" where
  "jitter micro p g =
     (if micro then
        (let (u, g1) = Float64 g in
         if u < 1 / 10 then
           (let (a, g2) = Float64 g1;
                (b, g3) = Float64 g2
            in ((fst p + (a - 1 / 2) * 2, snd p + (b - 1 / 2) * 2), g3))
         else (p, g1))
      else (p, g))"

text \<open>The body of the loop, for step \<open>i\<close> of \<open>steps\<close>.\<close>

definition move_step :: "bool \<Rightarrow> Curve \<Rightarrow> int \<Rightarrow> rng \<Rightarrow> nat \<Rightarrow> outcome" where
  "move_step micro cv steps g i =
     (let t = real i / real_of_int steps;
          ((x, y), g1) = jitter micro (curve_point cv t) g
      in case Intn g1 6 of
           Inl e \<Rightarrow> ([MouseMove x y], Inl e)
         | Inr (k, g2) \<Rightarrow>
             (let base = 4 + k;
                  sleep = trunc (real_of_int base * (1 / 2 + ease t * (8 / 10))
                                 * real_of_int Millisecond)
              in ([MouseMove x y, Sleep sleep], Inr g2)))"

fun move_loop :: "bool \<Rightarrow> Curve \<Rightarrow> int \<Rightarrow> rng \<Rightarrow> nat list \<Rightarrow> outcome" where
  "move_loop micro cv steps g [] = ([], Inr g)"
| "move_loop micro cv steps g (i # is) =
     (case move_step micro cv steps g i of
        (evs, Inl e) \<Rightarrow> (evs, Inl e)
      | (evs, Inr g') \<Rightarrow>
          (let (evs', r) = move_loop micro cv steps g' is in (evs @ evs', r)))"

text \<open>The number of steps drawn for the path: \<open>s.rng.Intn(15) + 25\<close>.\<close>

definition draw_steps :: "rng \<Rightarrow> error + (int \<times> rng)" where
  "draw_steps g = (case Intn g 15 of Inl e \<Rightarrow> Inl e | Inr (k, g') \<Rightarrow> Inr (k + 25, g'))"

definition moveMouseToElement :: "Config \<Rightarrow> Box \<Rightarrow> Window \<Rightarrow> rng \<Rightarrow> outcome" where
  "moveMouseToElement cfg box vp g =
     (let (cv, g6) = plan_curve box vp g in
      case draw_steps g6 of
        Inl e \<Rightarrow> ([], Inl e)
      | Inr (steps, g7) \<Rightarrow>
          move_loop (MicroCorrections (MouseMovement (Stealth cfg))) cv steps g7
            [0 ..< Suc (nat steps)])"

text \<open>The points and the delays of a trace, in order.\<close>

fun points :: "event list \<Rightarrow> (real \<times> real) list" where
  "points [] = []"
| "points (MouseMove x y # es) = (x, y) # points es"
| "points (e # es) = points es"

fun delays :: "event list \<Rightarrow> int list" where
  "delays [] = []"
| "delays (Sleep d # es) = d # delays es"
| "delays (e # es) = delays es"

section \<open>The daily limit of connection requests\<close>

text \<open>
  The tables \<open>profiles\<close> and \<open>connection_requests\<close>, with the columns the queries read.
  A time is a number of seconds since the epoch, and \<open>DATE\<close> its calendar day. The
  queries are taken to succeed.
\<close>

type_synonym time = int

definition DATE :: "time \<Rightarrow> int" where
  "DATE t = t div 86400"

record Profile =
  ID :: int
  URL :: string

record ConnectionRequest =
  ProfileID :: int
  Status :: string
  SentAt :: time

record DB =
  profiles :: "Profile list"
  connection_requests :: "ConnectionRequest list"

definition getUncontactedProfiles :: "DB \<Rightarrow> Profile list" where
  "getUncontactedProfiles db =
     take 100 (filter (\<lambda>p. ID p \<notin> set (map ProfileID
        (filter (\<lambda>r. Status r = ''sent'' \<or> Status r = ''accepted'') (connection_requests db))))
        (profiles db))"

definition getConnectionsSentToday :: "DB \<Rightarrow> time \<Rightarrow> int" where
  "getConnectionsSentToday db now =
     int (length (filter (\<lambda>r. DATE (SentAt r) = DATE now) (connection_requests db)))"

definition saveConnectionRequest :: "DB \<Rightarrow> int \<Rightarrow> string \<Rightarrow> time \<Rightarrow> DB" where
  "saveConnectionRequest db profileID status now =
     db\<lparr>connection_requests := connection_requests db @
        [\<lparr>ProfileID = profileID, Status = status, SentAt = now\<rparr>]\<rparr>"

text \<open>
  \<open>sendConnectionRequest\<close> drives the browser and then saves the row. Its outcome is a
  parameter \<open>send\<close>: for a profile, \<open>None\<close> when it returned an error (the navigation
  failed, or the row was not saved), \<open>Some t\<close> when it returned \<open>nil\<close>, having saved the
  row at time \<open>t\<close>. The loop counts the requests that returned \<open>nil\<close> and stops at
  \<open>remaining\<close>; the pauses after a request do not touch the tables and are left out.
\<close>

fun send_loop :: "(Profile \<Rightarrow> time option) \<Rightarrow> int \<Rightarrow> int \<Rightarrow> DB \<Rightarrow> Profile list \<Rightarrow> int \<times> DB" where
  "send_loop send remaining sent db [] = (sent, db)"
| "send_loop send remaining sent db (p # ps) =
     (if sent \<ge> remaining then (sent, db)
      else
        (case send p of
           None \<Rightarrow> send_loop send remaining sent db ps
         | Some t \<Rightarrow>
             send_loop send remaining (sent + 1) (saveConnectionRequest db (ID p) ''sent'' t) ps))"

text \<open>The result is the error returned (\<open>None\<close> for \<open>nil\<close>) and the tables afterwards.\<close>

definition SendConnectionRequests ::
    "Config \<Rightarrow> (Profile \<Rightarrow> time option) \<Rightarrow> time \<Rightarrow> DB \<Rightarrow> error option \<times> DB" where
  "SendConnectionRequests cfg send now db =
     (let ps = getUncontactedProfiles db in
      if length ps = 0 then (None, db)
      else
        (let sentToday = getConnectionsSentToday db now;
             remaining = wrap64 (DailyLimit (Connections cfg) - sentToday)
         in if remaining \<le> 0 then (Some DailyLimitReached, db)
            else (None, snd (send_loop send remaining 0 db ps))))"

section \<open>Example inputs\<close>

text \<open>The configuration the README describes.\<close>

definition example_cfg :: Config where
  "example_cfg =
     \<lparr>Connections = \<lparr>DailyLimit = 50\<rparr>,
      Stealth =
        \<lparr>MouseMovement = \<lparr>MouseMovement_Enabled = True, BezierCurves = True,
                           OvershootProbability = 1 / 10, MicroCorrections = True\<rparr>,
         Timing = \<lparr>Timing_Enabled = True, MinThinkTime = 1000, MaxThinkTime = 5000,
                    ScrollSpeedVariance = 3 / 5\<rparr>,
         Scrolling = \<lparr>Scrolling_Enabled = True, VariableSpeed = True,
                       ScrollBackProbability = 1 / 5\<rparr>,
         Typing = \<lparr>Typing_Enabled = True, MinKeystrokeDelay = 50, MaxKeystrokeDelay = 200,
                    TypoProbability = 1 / 20\<rparr>,
         Hovering = \<lparr>Hovering_Enabled = True, HoverProbability = 2 / 5,
                      HoverDurationMin = 500, HoverDurationMax = 2000\<rparr>,
         Scheduling = \<lparr>Scheduling_Enabled = True, BusinessHoursOnly = True, StartHour = 9,
                        EndHour = 17, BreakProbability = 1 / 10\<rparr>\<rparr>\<rparr>"

text \<open>The same with the typing options replaced.\<close>

definition typing_cfg :: "TypingConfig \<Rightarrow> Config" where
  "typing_cfg tc = example_cfg\<lparr>Stealth := (Stealth example_cfg)\<lparr>Typing := tc\<rparr>\<rparr>"

text \<open>The same with other options replaced.\<close>

definition timing_cfg :: "TimingConfig \<Rightarrow> Config" where
  "timing_cfg tc = example_cfg\<lparr>Stealth := (Stealth example_cfg)\<lparr>Timing := tc\<rparr>\<rparr>"

definition hovering_cfg :: "HoveringConfig \<Rightarrow> Config" where
  "hovering_cfg hc = example_cfg\<lparr>Stealth := (Stealth example_cfg)\<lparr>Hovering := hc\<rparr>\<rparr>"

definition scheduling_cfg :: "SchedulingConfig \<Rightarrow> Config" where
  "scheduling_cfg sc = example_cfg\<lparr>Stealth := (Stealth example_cfg)\<lparr>Scheduling := sc\<rparr>\<rparr>"

text \<open>Scrolling enabled, with a given speed variance and scroll-back probability.\<close>

definition scrolling_cfg :: "real \<Rightarrow> real \<Rightarrow> Config" where
  "scrolling_cfg v p =
     example_cfg\<lparr>Stealth := (Stealth example_cfg)
       \<lparr>Timing := \<lparr>Timing_Enabled = True, MinThinkTime = 1000, MaxThinkTime = 5000,
                   ScrollSpeedVariance = v\<rparr>,
        Scrolling := \<lparr>Scrolling_Enabled = True, VariableSpeed = True,
                      ScrollBackProbability = p\<rparr>\<rparr>\<rparr>"

text \<open>Mouse movement with micro-corrections switched on or off.\<close>

definition mouse_cfg :: "bool \<Rightarrow> Config" where
  "mouse_cfg micro =
     example_cfg\<lparr>Stealth := (Stealth example_cfg)
       \<lparr>MouseMovement := \<lparr>MouseMovement_Enabled = True, BezierCurves = True,
                          OvershootProbability = 1 / 10, MicroCorrections = micro\<rparr>\<rparr>\<rparr>"

text \<open>A button of 100 by 40 pixels at (800, 300) in a window of 1280 by 720.\<close>

definition example_box :: Box where
  "example_box = \<lparr>Box_X = 800, Box_Y = 300, Box_Width = 100, Box_Height = 40\<rparr>"

definition example_window :: Window where
  "example_window = \<lparr>innerWidth = 1280, innerHeight = 720\<rparr>"

text \<open>The same with a given daily limit.\<close>

definition limit_cfg :: "int \<Rightarrow> Config" where
  "limit_cfg n = example_cfg\<lparr>Connections := \<lparr>DailyLimit = n\<rparr>\<rparr>"

text \<open>
  Five profiles and no request yet; and the same tables after three requests of the
  first day (second 500).
\<close>

definition empty_db :: DB where
  "empty_db =
     \<lparr>profiles = [\<lparr>ID = 1, URL = ''/in/a''\<rparr>, \<lparr>ID = 2, URL = ''/in/b''\<rparr>,
                  \<lparr>ID = 3, URL = ''/in/c''\<rparr>, \<lparr>ID = 4, URL = ''/in/d''\<rparr>,
                  \<lparr>ID = 5, URL = ''/in/e''\<rparr>],
      connection_requests = []\<rparr>"

definition example_db :: DB where
  "example_db = empty_db\<lparr>connection_requests :=
     [\<lparr>ProfileID = 1, Status = ''sent'', SentAt = 500\<rparr>,
      \<lparr>ProfileID = 2, Status = ''sent'', SentAt = 500\<rparr>,
      \<lparr>ProfileID = 3, Status = ''sent'', SentAt = 500\<rparr>]\<rparr>"

section \<open>The random source stays in range\<close>

lemma Float64_range: "0 \<le> fst (Float64 g) \<and> fst (Float64 g) < 1"
  by (simp add: Float64_def)

lemma Intn_range: "Intn g n = Inr (k, g') \<Longrightarrow> 0 \<le> k \<and> k < n"
  by (auto simp: Intn_def split: if_splits)

section \<open>Typing\<close>

lemma type_char_shape:
  "type_char tc g c = (evs, Inr g') \<Longrightarrow>
     (\<not> Typing_Enabled tc \<and> evs = [InputChar c]) \<or>
     (Typing_Enabled tc \<and> (\<exists>d. evs = [InputChar c, Sleep d] \<or>
        evs = [InputChar c, InputWrong, Sleep d, InputBackspace, Sleep d, Sleep d]))"
  by (auto simp: type_char_def split: if_splits sum.splits prod.splits)

lemma type_char_returns:
  "(\<exists>evs g'. type_char tc g c = (evs, Inr g')) =
     (\<not> Typing_Enabled tc \<or> 0 < wrap64 (MaxKeystrokeDelay tc - MinKeystrokeDelay tc))"
  by (auto simp: type_char_def keystroke_delay_def Intn_def
      split: if_splits sum.splits prod.splits)

lemma type_char_typo:
  assumes "Typing_Enabled tc" "1 \<le> TypoProbability tc"
    "0 < wrap64 (MaxKeystrokeDelay tc - MinKeystrokeDelay tc)"
  shows "\<exists>d g'. type_char tc g c =
     ([InputChar c, InputWrong, Sleep d, InputBackspace, Sleep d, Sleep d], Inr g')"
proof -
  obtain k g1 where k: "keystroke_delay tc g = Inr (k, g1)"
    using assms(3) by (auto simp: keystroke_delay_def Intn_def)
  have "fst (Float64 g1) < TypoProbability tc"
    using Float64_range [of g1] assms(2) by linarith
  then show ?thesis
    using assms(1) k by (auto simp: type_char_def split: prod.splits)
qed

lemma type_loop_returns:
  "(\<exists>evs g'. type_loop tc g cs = (evs, Inr g')) =
     (cs = [] \<or> \<not> Typing_Enabled tc \<or>
      0 < wrap64 (MaxKeystrokeDelay tc - MinKeystrokeDelay tc))"
proof (induction cs arbitrary: g)
  case Nil
  then show ?case by simp
next
  case (Cons c cs)
  show ?case
  proof (cases "\<not> Typing_Enabled tc \<or>
      0 < wrap64 (MaxKeystrokeDelay tc - MinKeystrokeDelay tc)")
    case True
    then obtain evs g1 where 1: "type_char tc g c = (evs, Inr g1)"
      using type_char_returns [of tc g c] by blast
    from True obtain evs' g2 where 2: "type_loop tc g1 cs = (evs', Inr g2)"
      using Cons.IH [of g1] by blast
    from 1 2 True show ?thesis by simp
  next
    case False
    then have "\<not> (\<exists>evs g'. type_char tc g c = (evs, Inr g'))"
      using type_char_returns [of tc g c] by blast
    then have "\<not> (\<exists>evs g'. type_loop tc g (c # cs) = (evs, Inr g'))"
      by (auto split: prod.splits sum.splits)
    with False show ?thesis by simp
  qed
qed

lemma type_loop_committed:
  "type_loop tc g cs = (evs, Inr g') \<Longrightarrow> committed evs = cs"
proof (induction cs arbitrary: g evs)
  case Nil
  then show ?case by simp
next
  case (Cons c cs)
  then show ?case
    by (fastforce split: prod.splits sum.splits dest!: type_char_shape)
qed

lemma type_loop_blocks:
  "type_loop tc g cs = (evs, Inr g') \<Longrightarrow> Typing_Enabled tc \<Longrightarrow>
   \<exists>blocks. evs = concat blocks \<and>
     list_all2 (\<lambda>c b. \<exists>d. b = [InputChar c, Sleep d] \<or>
        b = [InputChar c, InputWrong, Sleep d, InputBackspace, Sleep d, Sleep d]) cs blocks"
proof (induction cs arbitrary: g evs)
  case Nil
  then show ?case by simp
next
  case (Cons c cs)
  from Cons.prems obtain e1 g1 e2 where
    1: "type_char tc g c = (e1, Inr g1)" and 2: "type_loop tc g1 cs = (e2, Inr g')"
    and evs: "evs = e1 @ e2"
    by (auto split: prod.splits sum.splits)
  from Cons.IH [OF 2 Cons.prems(2)] obtain bs where
    bs: "e2 = concat bs"
    "list_all2 (\<lambda>c b. \<exists>d. b = [InputChar c, Sleep d] \<or>
        b = [InputChar c, InputWrong, Sleep d, InputBackspace, Sleep d, Sleep d]) cs bs"
    by blast
  from type_char_shape [OF 1] Cons.prems(2) have
    "\<exists>d. e1 = [InputChar c, Sleep d] \<or>
        e1 = [InputChar c, InputWrong, Sleep d, InputBackspace, Sleep d, Sleep d]"
    by blast
  with bs evs have "evs = concat (e1 # bs) \<and>
     list_all2 (\<lambda>c b. \<exists>d. b = [InputChar c, Sleep d] \<or>
        b = [InputChar c, InputWrong, Sleep d, InputBackspace, Sleep d, Sleep d])
       (c # cs) (e1 # bs)"
    by simp
  then show ?case by blast
qed

lemma type_loop_typo:
  assumes "Typing_Enabled tc" "1 \<le> TypoProbability tc"
    "0 < wrap64 (MaxKeystrokeDelay tc - MinKeystrokeDelay tc)"
  shows "\<exists>ds g'. length ds = length cs \<and> type_loop tc g cs =
     (concat (map (\<lambda>(c, d). [InputChar c, InputWrong, Sleep d, InputBackspace, Sleep d,
        Sleep d]) (zip cs ds)), Inr g')"
proof (induction cs arbitrary: g)
  case Nil
  then show ?case by simp
next
  case (Cons c cs)
  obtain d g1 where 1: "type_char tc g c =
     ([InputChar c, InputWrong, Sleep d, InputBackspace, Sleep d, Sleep d], Inr g1)"
    using type_char_typo [OF assms] by blast
  obtain ds g2 where 2: "length ds = length cs" "type_loop tc g1 cs =
     (concat (map (\<lambda>(c, d). [InputChar c, InputWrong, Sleep d, InputBackspace, Sleep d,
        Sleep d]) (zip cs ds)), Inr g2)"
    using Cons.IH [of g1] by blast
  have "length (d # ds) = length (c # cs) \<and> type_loop tc g (c # cs) =
     (concat (map (\<lambda>(c, d). [InputChar c, InputWrong, Sleep d, InputBackspace, Sleep d,
        Sleep d]) (zip (c # cs) (d # ds))), Inr g2)"
    using 1 2 by simp
  then show ?case by blast
qed

text \<open>
  Claim C1, as the code has it. With typing enabled, a typo probability of 1 (or more) and
  a keystroke range that \<open>Intn\<close> accepts, \<open>HumanType\<close> returns, and its trace is the focus
  followed, for each character of the text in order, by that character, then the wrong
  character \<open>x\<close>, a pause, the backspace, a pause, and a last pause. The typo and the
  backspace come after the character, not before it. The characters sent from the text
  equal the text.
\<close>

theorem HumanType_typo_every_char:
  assumes "Typing_Enabled (Typing (Stealth cfg))"
    and "1 \<le> TypoProbability (Typing (Stealth cfg))"
    and "0 < wrap64 (MaxKeystrokeDelay (Typing (Stealth cfg))
                     - MinKeystrokeDelay (Typing (Stealth cfg)))"
  shows "\<exists>ds g'. length ds = length cs \<and>
     HumanType cfg g cs =
       (MustFocus # concat (map (\<lambda>(c, d). [InputChar c, InputWrong, Sleep d, InputBackspace,
          Sleep d, Sleep d]) (zip cs ds)), Inr g') \<and>
     committed (fst (HumanType cfg g cs)) = cs"
proof -
  obtain ds g' where ds: "length ds = length cs"
    and run: "type_loop (Typing (Stealth cfg)) g cs =
     (concat (map (\<lambda>(c, d). [InputChar c, InputWrong, Sleep d, InputBackspace, Sleep d,
        Sleep d]) (zip cs ds)), Inr g')"
    using type_loop_typo [OF assms] by blast
  from run have "committed (fst (HumanType cfg g cs)) = cs"
    using type_loop_committed [OF run] by (simp add: HumanType_def)
  with ds run show ?thesis
    by (auto simp: HumanType_def)
qed

theorem HumanType_typo_every_char_witness:
  "\<exists>ds g'. length ds = length [104, 105 :: rune] \<and>
     HumanType (typing_cfg \<lparr>Typing_Enabled = True, MinKeystrokeDelay = 50,
        MaxKeystrokeDelay = 200, TypoProbability = 1\<rparr>) (sconst 7) [104, 105] =
       (MustFocus # concat (map (\<lambda>(c, d). [InputChar c, InputWrong, Sleep d, InputBackspace,
          Sleep d, Sleep d]) (zip [104, 105] ds)), Inr g') \<and>
     committed (fst (HumanType (typing_cfg \<lparr>Typing_Enabled = True, MinKeystrokeDelay = 50,
        MaxKeystrokeDelay = 200, TypoProbability = 1\<rparr>) (sconst 7) [104, 105])) = [104, 105]"
  by (rule HumanType_typo_every_char)
     (simp_all add: typing_cfg_def example_cfg_def wrap64_def)

text \<open>
  Claim C1, as stated, fails: with typo probability 1 the single character of the text
  \<open>a\<close> (code point 97) is sent first; nothing but the focus precedes it, and the wrong
  character and the backspace follow it.
\<close>

theorem HumanType_typo_precedes_counterexample:
  "HumanType (typing_cfg \<lparr>Typing_Enabled = True, MinKeystrokeDelay = 50,
      MaxKeystrokeDelay = 200, TypoProbability = 1\<rparr>) (sconst 0) [97] =
     ([MustFocus, InputChar 97, InputWrong, Sleep 50000000, InputBackspace, Sleep 50000000,
       Sleep 50000000], Inr (sconst 0)) \<and>
   takeWhile (\<lambda>e. e \<noteq> InputChar 97)
     (fst (HumanType (typing_cfg \<lparr>Typing_Enabled = True, MinKeystrokeDelay = 50,
        MaxKeystrokeDelay = 200, TypoProbability = 1\<rparr>) (sconst 0) [97])) = [MustFocus]"
  by (simp add: HumanType_def typing_cfg_def example_cfg_def type_char_def
      keystroke_delay_def Intn_def Float64_def wrap64_def Millisecond_def)

text \<open>
  Claim C2. For every text and every typo probability: the empty text gives no keystroke
  (the trace is the focus alone); \<open>HumanType\<close> returns exactly when the text is empty,
  typing is disabled or the keystroke range is one \<open>Intn\<close> accepts; and whenever it
  returns, the characters sent from the text, the wrong characters and backspaces left
  out, are the text, in order.
\<close>

theorem HumanType_committed:
  "HumanType cfg g [] = ([MustFocus], Inr g) \<and>
   ((\<exists>evs g'. HumanType cfg g cs = (evs, Inr g')) =
      (cs = [] \<or> \<not> Typing_Enabled (Typing (Stealth cfg)) \<or>
       0 < wrap64 (MaxKeystrokeDelay (Typing (Stealth cfg))
                   - MinKeystrokeDelay (Typing (Stealth cfg))))) \<and>
   (\<forall>evs g'. HumanType cfg g cs = (evs, Inr g') \<longrightarrow> committed evs = cs)"
proof (intro conjI allI impI)
  show "HumanType cfg g [] = ([MustFocus], Inr g)"
    by (simp add: HumanType_def)
next
  have "(\<exists>evs g'. HumanType cfg g cs = (evs, Inr g')) =
        (\<exists>evs g'. type_loop (Typing (Stealth cfg)) g cs = (evs, Inr g'))"
    by (auto simp: HumanType_def split: prod.splits)
  then show "(\<exists>evs g'. HumanType cfg g cs = (evs, Inr g')) =
      (cs = [] \<or> \<not> Typing_Enabled (Typing (Stealth cfg)) \<or>
       0 < wrap64 (MaxKeystrokeDelay (Typing (Stealth cfg))
                   - MinKeystrokeDelay (Typing (Stealth cfg))))"
    by (simp only: type_loop_returns)
next
  fix evs g'
  assume "HumanType cfg g cs = (evs, Inr g')"
  then obtain evs' where "type_loop (Typing (Stealth cfg)) g cs = (evs', Inr g')"
    and "evs = MustFocus # evs'"
    by (auto simp: HumanType_def split: prod.splits)
  then show "committed evs = cs"
    using type_loop_committed by simp
qed

theorem HumanType_committed_witness:
  "(\<exists>evs g'. HumanType example_cfg (sconst (2 ^ 52)) [104, 105] = (evs, Inr g')) \<and>
   committed (fst (HumanType example_cfg (sconst (2 ^ 52)) [104, 105])) = [104, 105]"
proof -
  note th = HumanType_committed [of example_cfg "sconst (2 ^ 52)" "[104, 105]"]
  have "0 < wrap64 (MaxKeystrokeDelay (Typing (Stealth example_cfg))
                    - MinKeystrokeDelay (Typing (Stealth example_cfg)))"
    by (simp add: example_cfg_def wrap64_def)
  with th obtain evs g' where
    run: "HumanType example_cfg (sconst (2 ^ 52)) [104, 105] = (evs, Inr g')"
    by blast
  with th have "committed evs = [104, 105]"
    by blast
  with run show ?thesis
    by auto
qed

text \<open>
  Claim C10. With typing enabled and a keystroke range that \<open>Intn\<close> accepts, \<open>HumanType\<close>
  returns a trace that splits into one block for each character of the text, and every
  pause of a block has the same duration \<open>d\<close>: the block is the character and one pause,
  or the character, the wrong character, a pause, the backspace and two more pauses.
\<close>

theorem HumanType_one_delay_per_char:
  assumes "Typing_Enabled (Typing (Stealth cfg))"
    and "0 < wrap64 (MaxKeystrokeDelay (Typing (Stealth cfg))
                     - MinKeystrokeDelay (Typing (Stealth cfg)))"
  shows "\<exists>blocks g'. HumanType cfg g cs = (MustFocus # concat blocks, Inr g') \<and>
     list_all2 (\<lambda>c b. \<exists>d. b = [InputChar c, Sleep d] \<or>
        b = [InputChar c, InputWrong, Sleep d, InputBackspace, Sleep d, Sleep d]) cs blocks"
proof -
  obtain evs g' where run: "type_loop (Typing (Stealth cfg)) g cs = (evs, Inr g')"
    using type_loop_returns [of "Typing (Stealth cfg)" g cs] assms(2) by blast
  from type_loop_blocks [OF run assms(1)] obtain blocks where
    "evs = concat blocks"
    "list_all2 (\<lambda>c b. \<exists>d. b = [InputChar c, Sleep d] \<or>
        b = [InputChar c, InputWrong, Sleep d, InputBackspace, Sleep d, Sleep d]) cs blocks"
    by blast
  with run show ?thesis
    by (auto simp: HumanType_def)
qed

theorem HumanType_one_delay_per_char_witness:
  "\<exists>blocks g'. HumanType example_cfg (sconst 3) [104, 105] =
       (MustFocus # concat blocks, Inr g') \<and>
     list_all2 (\<lambda>c b. \<exists>d. b = [InputChar c, Sleep d] \<or>
        b = [InputChar c, InputWrong, Sleep d, InputBackspace, Sleep d, Sleep d])
       [104, 105] blocks"
  by (rule HumanType_one_delay_per_char) (simp_all add: example_cfg_def wrap64_def)

section \<open>Degenerate delay ranges\<close>

text \<open>
  \<open>RandomDelay\<close> replaces a maximum that is not above the minimum by the minimum plus
  one, and so returns whenever the two bounds are far from the ends of the 64-bit range.
\<close>

lemma wrap64_id: "\<bar>x\<bar> < 2 ^ 63 \<Longrightarrow> wrap64 x = x"
  by (simp add: wrap64_def)

lemma RandomDelay_returns:
  assumes "\<bar>MinThinkTime (Timing (Stealth cfg))\<bar> < 2 ^ 62"
    and "\<bar>MaxThinkTime (Timing (Stealth cfg))\<bar> < 2 ^ 62"
  shows "\<exists>evs g'. RandomDelay cfg g = (evs, Inr g')"
proof -
  define mn where "mn = MinThinkTime (Timing (Stealth cfg))"
  define mx where "mx = (if MaxThinkTime (Timing (Stealth cfg)) \<le> mn then wrap64 (mn + 1)
     else MaxThinkTime (Timing (Stealth cfg)))"
  have "wrap64 (mn + 1) = mn + 1"
    using assms(1) by (intro wrap64_id) (simp add: mn_def)
  then have "mn < mx" "\<bar>mx - mn\<bar> < 2 ^ 63"
    using assms by (auto simp: mx_def mn_def)
  then have "0 < wrap64 (mx - mn)"
    by (simp add: wrap64_id)
  then have "\<exists>k g'. Intn g (wrap64 (mx - mn)) = Inr (k, g')"
    by (simp add: Intn_def)
  then show ?thesis
    unfolding RandomDelay_def Let_def mn_def [symmetric] mx_def [symmetric]
    by auto
qed

text \<open>
  Claim C8 at a degenerate range, minimum and maximum both 100 ms. \<open>RandomDelay\<close>
  normalises the range and sleeps for the minimum. \<open>HumanType\<close> and \<open>hoverOverElement\<close>
  have no such guard: they call \<open>Intn(0)\<close>, which panics; \<open>HumanType\<close> has sent the first
  character by then.
\<close>

theorem degenerate_range_panics:
  "RandomDelay (timing_cfg \<lparr>Timing_Enabled = True, MinThinkTime = 100, MaxThinkTime = 100,
      ScrollSpeedVariance = 3 / 5\<rparr>) (sconst 0) = ([Sleep 100000000], Inr (sconst 0)) \<and>
   HumanType (typing_cfg \<lparr>Typing_Enabled = True, MinKeystrokeDelay = 100,
      MaxKeystrokeDelay = 100, TypoProbability = 1 / 20\<rparr>) (sconst 0) [97] =
     ([MustFocus, InputChar 97], Inl IntnPanic) \<and>
   hoverOverElement (hovering_cfg \<lparr>Hovering_Enabled = True, HoverProbability = 2 / 5,
      HoverDurationMin = 100, HoverDurationMax = 100\<rparr>) (sconst 0) = ([], Inl IntnPanic)"
  by (simp add: RandomDelay_def HumanType_def hoverOverElement_def timing_cfg_def
      typing_cfg_def hovering_cfg_def example_cfg_def type_char_def keystroke_delay_def
      Intn_def wrap64_def Millisecond_def)

section \<open>Random breaks\<close>

lemma RandomBreak_disabled:
  "\<not> Scheduling_Enabled (Scheduling (Stealth cfg)) \<Longrightarrow> RandomBreak cfg g = ([], Inr g)"
  by (simp add: RandomBreak_def)

lemma RandomBreak_range:
  "RandomBreak cfg g = (evs, r) \<Longrightarrow> Sleep d \<in> set evs \<Longrightarrow>
     60 * Second \<le> d \<and> d \<le> 359 * Second"
  by (auto simp: RandomBreak_def Intn_def Let_def Second_def split: if_splits prod.splits)

text \<open>
  Claim C9 at the draw 299 of \<open>Intn(300)\<close>: with scheduling enabled and the break taken,
  \<open>RandomBreak\<close> sleeps for 359 seconds, which is more than the 300 seconds (five minutes)
  the claim and the comment of the code give as the upper end.
\<close>

theorem RandomBreak_exceeds_five_minutes:
  "RandomBreak (scheduling_cfg \<lparr>Scheduling_Enabled = True, BusinessHoursOnly = True,
      StartHour = 9, EndHour = 17, BreakProbability = 1 / 10\<rparr>) (0 ## sconst 299) =
     ([Sleep (359 * Second)], Inr (sconst 299)) \<and> 300 * Second < 359 * Second"
  by (simp add: RandomBreak_def scheduling_cfg_def example_cfg_def Float64_def Intn_def
      Second_def)

section \<open>The daily limit\<close>


text \<open>
  The loop sends no more than \<open>remaining\<close> requests, and adds one row for each request
  it counts.
\<close>

lemma send_loop_count:
  "sent \<le> remaining \<Longrightarrow> send_loop send remaining sent db ps = (sent', db') \<Longrightarrow>
   sent \<le> sent' \<and> sent' \<le> remaining \<and>
   int (length (connection_requests db')) =
     int (length (connection_requests db)) + (sent' - sent) \<and>
   profiles db' = profiles db"
proof (induction ps arbitrary: sent db)
  case Nil
  then show ?case by simp
next
  case (Cons p ps)
  show ?case
  proof (cases "sent \<ge> remaining")
    case True
    with Cons.prems show ?thesis by simp
  next
    case False
    show ?thesis
    proof (cases "send p")
      case None
      with False Cons.prems have "send_loop send remaining sent db ps = (sent', db')"
        by simp
      from Cons.IH [OF Cons.prems(1) this] show ?thesis .
    next
      case (Some t)
      with False Cons.prems have
        "send_loop send remaining (sent + 1) (saveConnectionRequest db (ID p) ''sent'' t) ps
           = (sent', db')"
        by simp
      moreover from False have "sent + 1 \<le> remaining" by simp
      ultimately show ?thesis
        using Cons.IH [of "sent + 1" "saveConnectionRequest db (ID p) ''sent'' t"]
        by (simp add: saveConnectionRequest_def)
    qed
  qed
qed

text \<open>
  On its first day, with a limit of 3 and five profiles never contacted, the function
  sends three requests and stops.
\<close>

lemma first_day_sends_three:
  "SendConnectionRequests (limit_cfg 3) (\<lambda>p. Some 500) 400 empty_db = (None, example_db)"
  by (simp add: SendConnectionRequests_def limit_cfg_def example_cfg_def empty_db_def
      example_db_def getUncontactedProfiles_def getConnectionsSentToday_def wrap64_def
      saveConnectionRequest_def DATE_def)



section \<open>Scrolling\<close>

text \<open>
  For a step size that is not negative and a speed variance between 0 and 2, every step
  of the loop scrolls by a whole number of pixels that is not negative and lies less than
  one pixel below \<open>stepSize * variance\<close>, where the variance lies within
  \<open>1 - v / 2\<close> and \<open>1 + v / 2\<close>. The loop never panics.
\<close>

lemma trunc_nonneg:
  "0 \<le> x \<Longrightarrow> 0 \<le> trunc x \<and> x - 1 < real_of_int (trunc x) \<and> real_of_int (trunc x) \<le> x"
  by (simp add: trunc_def)

lemma variance_range:
  assumes "0 \<le> v" "v \<le> 2"
  shows "0 \<le> 1 - v / 2 \<and> 1 - v / 2 \<le> 1 + (fst (Float64 g) - 1 / 2) * v \<and>
     1 + (fst (Float64 g) - 1 / 2) * v \<le> 1 + v / 2"
proof -
  have u: "0 \<le> fst (Float64 g)" "fst (Float64 g) < 1" using Float64_range by auto
  have "- (1 / 2) * v \<le> (fst (Float64 g) - 1 / 2) * v"
    using u(1) assms(1) by (intro mult_right_mono) auto
  moreover have "(fst (Float64 g) - 1 / 2) * v \<le> (1 / 2) * v"
    using u(2) assms(1) by (intro mult_right_mono) auto
  ultimately show ?thesis using assms by simp
qed

lemma scroll_steps_bounds:
  assumes "0 \<le> s" "0 \<le> v" "v \<le> 2"
  shows "\<exists>evs g'. scroll_steps s v g n = (evs, Inr g') \<and> length (deltas evs) = n \<and>
     (\<forall>d \<in> set (deltas evs). 0 \<le> d) \<and>
     real n * (s * (1 - v / 2) - 1) \<le> real_of_int (sum_list (deltas evs)) \<and>
     real_of_int (sum_list (deltas evs)) \<le> real n * (s * (1 + v / 2))"
proof (induction n arbitrary: g)
  case 0
  then show ?case by simp
next
  case (Suc n)
  define var where "var = 1 + (fst (Float64 g) - 1 / 2) * v"
  define a where "a = trunc (s * var)"
  have vr: "0 \<le> 1 - v / 2" "1 - v / 2 \<le> var" "var \<le> 1 + v / 2"
    using variance_range [OF assms(2,3), of g] by (auto simp: var_def)
  have sv: "0 \<le> s * var" "s * (1 - v / 2) \<le> s * var" "s * var \<le> s * (1 + v / 2)"
    using vr assms(1) by (auto intro: mult_left_mono)
  have a: "0 \<le> a" "s * var - 1 < real_of_int a" "real_of_int a \<le> s * var"
    using trunc_nonneg [OF sv(1)] by (auto simp: a_def)
  obtain k g2 where k: "Intn (snd (Float64 g)) 200 = Inr (k, g2)"
    by (simp add: Intn_def)
  from Suc.IH [of g2] obtain evs g' where
    ih: "scroll_steps s v g2 n = (evs, Inr g')" "length (deltas evs) = n"
      "\<forall>d \<in> set (deltas evs). 0 \<le> d"
      "real n * (s * (1 - v / 2) - 1) \<le> real_of_int (sum_list (deltas evs))"
      "real_of_int (sum_list (deltas evs)) \<le> real n * (s * (1 + v / 2))"
    by blast
  have run: "scroll_steps s v g (Suc n) =
      (ScrollBy a # Sleep ((k + 50) * Millisecond) # evs, Inr g')"
    using k ih(1) by (simp add: a_def var_def case_prod_beta Let_def)
  define lo where "lo = s * (1 - v / 2) - 1"
  define hi where "hi = s * (1 + v / 2)"
  have "real (Suc n) * lo = real n * lo + lo" "real (Suc n) * hi = real n * hi + hi"
    by (simp_all add: algebra_simps)
  moreover have "lo \<le> real_of_int a" "real_of_int a \<le> hi"
    using a(2,3) sv(2,3) by (simp_all add: lo_def hi_def)
  moreover have "real n * lo \<le> real_of_int (sum_list (deltas evs))"
    "real_of_int (sum_list (deltas evs)) \<le> real n * hi"
    using ih(4,5) by (simp_all add: lo_def hi_def)
  ultimately have "real (Suc n) * lo \<le> real_of_int (a + sum_list (deltas evs))"
    "real_of_int (a + sum_list (deltas evs)) \<le> real (Suc n) * hi"
    by simp_all
  then have "real (Suc n) * (s * (1 - v / 2) - 1) \<le> real_of_int (a + sum_list (deltas evs))"
    "real_of_int (a + sum_list (deltas evs)) \<le> real (Suc n) * (s * (1 + v / 2))"
    by (simp_all only: lo_def hi_def)
  then show ?case
    using run ih(2,3) a(1) by simp
qed

lemma go_div_nonneg: "0 \<le> a \<Longrightarrow> go_div a 4 = a div 4"
  by (cases "a = 0") (simp_all add: go_div_def)

lemma scroll_back_none:
  "ScrollBackProbability (Scrolling (Stealth cfg)) \<le> 0 \<Longrightarrow>
   scroll_back cfg g distance = ([], Inr (snd (Float64 g)))"
  using Float64_range [of g]
  by (simp add: scroll_back_def case_prod_beta)

lemma scroll_back_shape:
  assumes "4 \<le> distance"
  shows "\<exists>back g'. scroll_back cfg g distance = (back, Inr g') \<and>
     (back = [] \<or> (\<exists>b p. back = [ScrollBy (- b), Sleep p] \<and> 10 \<le> b \<and>
        b \<le> distance div 4 + 9 \<and> 500 * Millisecond \<le> p \<and> p < 1500 * Millisecond))"
proof (cases "fst (Float64 g) < ScrollBackProbability (Scrolling (Stealth cfg))")
  case False
  then show ?thesis
    by (simp add: scroll_back_def case_prod_beta)
next
  case True
  have pos: "0 < distance div 4" and gd: "go_div distance 4 = distance div 4"
    using assms by (simp_all add: go_div_nonneg)
  obtain b g2 where b: "Intn (snd (Float64 g)) (go_div distance 4) = Inr (b, g2)"
    using pos gd by (simp add: Intn_def)
  obtain p g3 where p: "Intn g2 1000 = Inr (p, g3)"
    by (simp add: Intn_def)
  have rb: "0 \<le> b \<and> b < distance div 4"
    using Intn_range [OF b] gd by simp
  have rp: "0 \<le> p \<and> p < 1000"
    using Intn_range [OF p] by simp
  have "scroll_back cfg g distance =
      ([ScrollBy (- (b + 10)), Sleep ((p + 500) * Millisecond)], Inr g3)"
    using True b p by (simp add: scroll_back_def case_prod_beta)
  moreover have "10 \<le> b + 10 \<and> b + 10 \<le> distance div 4 + 9"
    using rb by simp
  moreover have "500 * Millisecond \<le> (p + 500) * Millisecond \<and>
      (p + 500) * Millisecond < 1500 * Millisecond"
    using rp by (simp add: Millisecond_def)
  ultimately show ?thesis
    by blast
qed

text \<open>
  The forward part of an enabled scroll: between 5 and 14 steps, followed by what
  \<open>scroll_back\<close> does.
\<close>

lemma ScrollHumanLike_forward:
  assumes en: "Scrolling_Enabled (Scrolling (Stealth cfg))"
    and d: "0 \<le> distance"
    and v: "0 \<le> ScrollSpeedVariance (Timing (Stealth cfg))"
           "ScrollSpeedVariance (Timing (Stealth cfg)) \<le> 2"
  shows "\<exists>fwd g2. ScrollHumanLike cfg g distance =
       (fwd @ fst (scroll_back cfg g2 distance), snd (scroll_back cfg g2 distance)) \<and>
     5 \<le> length (deltas fwd) \<and> length (deltas fwd) \<le> 14 \<and>
     (\<forall>x \<in> set (deltas fwd). 0 \<le> x) \<and>
     real_of_int distance * (1 - ScrollSpeedVariance (Timing (Stealth cfg)) / 2)
       - real (length (deltas fwd)) \<le> real_of_int (sum_list (deltas fwd)) \<and>
     real_of_int (sum_list (deltas fwd))
       \<le> real_of_int distance * (1 + ScrollSpeedVariance (Timing (Stealth cfg)) / 2)"
proof -
  define vv where "vv = ScrollSpeedVariance (Timing (Stealth cfg))"
  obtain k g1 where k: "Intn g 10 = Inr (k, g1)"
    by (simp add: Intn_def)
  have rk: "0 \<le> k \<and> k < 10"
    using Intn_range [OF k] by simp
  define n where "n = nat (k + 5)"
  define s where "s = real_of_int distance / real_of_int (k + 5)"
  have n: "5 \<le> n" "n \<le> 14" "real n = real_of_int (k + 5)"
    using rk by (auto simp: n_def)
  have s0: "0 \<le> s"
    using d rk by (simp add: s_def)
  have ns: "real n * s = real_of_int distance"
    using rk n(3) by (simp add: s_def)
  from scroll_steps_bounds [OF s0, of vv g1 n] v obtain fwd g2 where
    run: "scroll_steps s vv g1 n = (fwd, Inr g2)" and len: "length (deltas fwd) = n"
    and nn: "\<forall>x \<in> set (deltas fwd). 0 \<le> x"
    and lo: "real n * (s * (1 - vv / 2) - 1) \<le> real_of_int (sum_list (deltas fwd))"
    and hi: "real_of_int (sum_list (deltas fwd)) \<le> real n * (s * (1 + vv / 2))"
    unfolding vv_def by blast
  have "real n * (s * (1 - vv / 2) - 1) = real n * s * (1 - vv / 2) - real n"
    by (simp add: algebra_simps)
  with lo ns have lo': "real_of_int distance * (1 - vv / 2) - real n
      \<le> real_of_int (sum_list (deltas fwd))"
    by simp
  have "real n * (s * (1 + vv / 2)) = real n * s * (1 + vv / 2)"
    by simp
  with hi ns have hi': "real_of_int (sum_list (deltas fwd))
      \<le> real_of_int distance * (1 + vv / 2)"
    by simp
  have "ScrollHumanLike cfg g distance =
       (fwd @ fst (scroll_back cfg g2 distance), snd (scroll_back cfg g2 distance))"
    using en k run
    by (simp add: ScrollHumanLike_def Let_def case_prod_beta s_def n_def vv_def)
  with len n(1,2) nn lo' hi' show ?thesis
    unfolding vv_def by blast
qed

lemma deltas_append: "deltas (xs @ ys) = deltas xs @ deltas ys"
  by (induction xs rule: deltas.induct) simp_all

lemma five: "(5::nat) = Suc (Suc (Suc (Suc (Suc 0))))" by simp

text \<open>With scrolling disabled the function scrolls once, by the whole distance.\<close>

lemma ScrollHumanLike_disabled:
  "\<not> Scrolling_Enabled (Scrolling (Stealth cfg)) \<Longrightarrow>
   ScrollHumanLike cfg g distance = ([ScrollBy distance], Inr g)"
  by (simp add: ScrollHumanLike_def)

text \<open>
  Claim C5, as the code has it. With scrolling enabled, no scroll back, a requested
  distance that is not negative and a speed variance \<open>v\<close> between 0 and 2,
  \<open>ScrollHumanLike\<close> returns after 5 to 14 steps, no step is negative, and the sum of
  the steps lies between \<open>distance * (1 - v / 2)\<close> less one pixel for each step, and
  \<open>distance * (1 + v / 2)\<close>. When the variance is 0 the sum is the distance up to the
  rounding of the steps: it is at most the distance and falls short of it by no more
  than one pixel for each step.
\<close>

theorem ScrollHumanLike_sum:
  assumes "Scrolling_Enabled (Scrolling (Stealth cfg))"
    and "ScrollBackProbability (Scrolling (Stealth cfg)) \<le> 0"
    and "0 \<le> distance"
    and "0 \<le> ScrollSpeedVariance (Timing (Stealth cfg))"
    and "ScrollSpeedVariance (Timing (Stealth cfg)) \<le> 2"
  shows "\<exists>evs g'. ScrollHumanLike cfg g distance = (evs, Inr g') \<and>
     5 \<le> length (deltas evs) \<and> length (deltas evs) \<le> 14 \<and>
     (\<forall>x \<in> set (deltas evs). 0 \<le> x) \<and>
     real_of_int distance * (1 - ScrollSpeedVariance (Timing (Stealth cfg)) / 2)
       - real (length (deltas evs)) \<le> real_of_int (sum_list (deltas evs)) \<and>
     real_of_int (sum_list (deltas evs))
       \<le> real_of_int distance * (1 + ScrollSpeedVariance (Timing (Stealth cfg)) / 2) \<and>
     (ScrollSpeedVariance (Timing (Stealth cfg)) = 0 \<longrightarrow>
        distance - int (length (deltas evs)) \<le> sum_list (deltas evs) \<and>
        sum_list (deltas evs) \<le> distance)"
proof -
  from ScrollHumanLike_forward [OF assms(1,3,4,5), of g] obtain fwd g2 where
    run: "ScrollHumanLike cfg g distance =
       (fwd @ fst (scroll_back cfg g2 distance), snd (scroll_back cfg g2 distance))"
    and rest: "5 \<le> length (deltas fwd)" "length (deltas fwd) \<le> 14"
     "\<forall>x \<in> set (deltas fwd). 0 \<le> x"
     "real_of_int distance * (1 - ScrollSpeedVariance (Timing (Stealth cfg)) / 2)
       - real (length (deltas fwd)) \<le> real_of_int (sum_list (deltas fwd))"
     "real_of_int (sum_list (deltas fwd))
       \<le> real_of_int distance * (1 + ScrollSpeedVariance (Timing (Stealth cfg)) / 2)"
    by blast
  have whole: "ScrollHumanLike cfg g distance = (fwd, Inr (snd (Float64 g2)))"
    using run scroll_back_none [OF assms(2), of g2 distance] by simp
  have exact: "ScrollSpeedVariance (Timing (Stealth cfg)) = 0 \<longrightarrow>
        distance - int (length (deltas fwd)) \<le> sum_list (deltas fwd) \<and>
        sum_list (deltas fwd) \<le> distance"
  proof
    assume v0: "ScrollSpeedVariance (Timing (Stealth cfg)) = 0"
    from rest(4,5) have
      "real_of_int (distance - int (length (deltas fwd)))
         \<le> real_of_int (sum_list (deltas fwd))"
      "real_of_int (sum_list (deltas fwd)) \<le> real_of_int distance"
      by (simp_all add: v0)
    then show "distance - int (length (deltas fwd)) \<le> sum_list (deltas fwd) \<and>
        sum_list (deltas fwd) \<le> distance"
      by (simp only: of_int_le_iff)
  qed
  from whole rest exact show ?thesis
    by blast
qed

theorem ScrollHumanLike_sum_witness:
  "\<exists>evs g'. ScrollHumanLike (scrolling_cfg 0 0) (sconst 0) 1000 = (evs, Inr g') \<and>
     5 \<le> length (deltas evs) \<and> length (deltas evs) \<le> 14 \<and>
     (\<forall>x \<in> set (deltas evs). 0 \<le> x) \<and>
     1000 - int (length (deltas evs)) \<le> sum_list (deltas evs) \<and>
     sum_list (deltas evs) \<le> 1000"
proof -
  have en: "Scrolling_Enabled (Scrolling (Stealth (scrolling_cfg 0 0)))"
    and nb: "ScrollBackProbability (Scrolling (Stealth (scrolling_cfg 0 0))) \<le> 0"
    and v0: "ScrollSpeedVariance (Timing (Stealth (scrolling_cfg 0 0))) = 0"
    by (simp_all add: scrolling_cfg_def)
  have d: "(0::int) \<le> 1000"
    by simp
  have v: "0 \<le> ScrollSpeedVariance (Timing (Stealth (scrolling_cfg 0 0)))"
    "ScrollSpeedVariance (Timing (Stealth (scrolling_cfg 0 0))) \<le> 2"
    by (simp_all add: v0)
  from ScrollHumanLike_sum [OF en nb d v, of "sconst 0"] obtain evs g' where
    run: "ScrollHumanLike (scrolling_cfg 0 0) (sconst 0) 1000 = (evs, Inr g')"
    and steps: "5 \<le> length (deltas evs)" "length (deltas evs) \<le> 14"
      "\<forall>x \<in> set (deltas evs). 0 \<le> x"
    and exact: "ScrollSpeedVariance (Timing (Stealth (scrolling_cfg 0 0))) = 0 \<longrightarrow>
        1000 - int (length (deltas evs)) \<le> sum_list (deltas evs) \<and>
        sum_list (deltas evs) \<le> 1000"
    by blast
  from exact v0 have "1000 - int (length (deltas evs)) \<le> sum_list (deltas evs)"
    "sum_list (deltas evs) \<le> 1000"
    by simp_all
  with run steps show ?thesis
    by blast
qed

text \<open>
  Claim C5, as stated, fails: for a distance of 1000, no scroll back and a speed variance
  of one half, the draws 0 give five steps of 150 pixels, 750 in all.
\<close>

theorem ScrollHumanLike_sum_counterexample:
  "ScrollHumanLike (scrolling_cfg (1 / 2) 0) (sconst 0) 1000 =
     ([ScrollBy 150, Sleep 50000000, ScrollBy 150, Sleep 50000000, ScrollBy 150,
       Sleep 50000000, ScrollBy 150, Sleep 50000000, ScrollBy 150, Sleep 50000000],
      Inr (sconst 0)) \<and>
   sum_list (deltas (fst (ScrollHumanLike (scrolling_cfg (1 / 2) 0) (sconst 0) 1000))) = 750"
  by (simp add: ScrollHumanLike_def scrolling_cfg_def example_cfg_def Intn_def Float64_def
      scroll_back_def trunc_def Millisecond_def five)

text \<open>
  Claim C6, as the code has it. With scrolling enabled, a requested distance of at least
  13 and a speed variance \<open>v\<close> between 0 and 2, \<open>ScrollHumanLike\<close> returns; its trace is
  the forward steps, none negative, followed by nothing or by one scroll back and its
  pause. The scroll back is by at least 10 and at most \<open>distance / 4 + 9\<close> pixels, which
  is less than the distance. The sum of all steps, the scroll back included, is at least
  \<open>distance * (3 / 4 - v / 2) - 23\<close>.
\<close>

theorem scroll_back_smaller:
  assumes "Scrolling_Enabled (Scrolling (Stealth cfg))"
    and "13 \<le> distance"
    and "0 \<le> ScrollSpeedVariance (Timing (Stealth cfg))"
    and "ScrollSpeedVariance (Timing (Stealth cfg)) \<le> 2"
  shows "\<exists>fwd back g'. ScrollHumanLike cfg g distance = (fwd @ back, Inr g') \<and>
     (\<forall>x \<in> set (deltas fwd). 0 \<le> x) \<and>
     (back = [] \<or> (\<exists>b p. back = [ScrollBy (- b), Sleep p] \<and> 10 \<le> b \<and>
        b \<le> distance div 4 + 9 \<and> b < distance)) \<and>
     real_of_int distance * (3 / 4 - ScrollSpeedVariance (Timing (Stealth cfg)) / 2) - 23
       \<le> real_of_int (sum_list (deltas (fwd @ back)))"
proof -
  define vv where "vv = ScrollSpeedVariance (Timing (Stealth cfg))"
  have d0: "0 \<le> distance" using assms(2) by simp
  from ScrollHumanLike_forward [OF assms(1) d0 assms(3,4), of g] obtain fwd g2 where
    run: "ScrollHumanLike cfg g distance =
       (fwd @ fst (scroll_back cfg g2 distance), snd (scroll_back cfg g2 distance))"
    and len: "length (deltas fwd) \<le> 14"
    and nn: "\<forall>x \<in> set (deltas fwd). 0 \<le> x"
    and lo: "real_of_int distance * (1 - vv / 2) - real (length (deltas fwd))
       \<le> real_of_int (sum_list (deltas fwd))"
    unfolding vv_def by blast
  have d4: "4 \<le> distance" using assms(2) by simp
  from scroll_back_shape [OF d4, of cfg g2] obtain bk g' where
    sb: "scroll_back cfg g2 distance = (bk, Inr g')"
    and shape: "bk = [] \<or> (\<exists>b p. bk = [ScrollBy (- b), Sleep p] \<and> 10 \<le> b \<and>
        b \<le> distance div 4 + 9 \<and> 500 * Millisecond \<le> p \<and> p < 1500 * Millisecond)"
    by blast
  have fwd_lo: "real_of_int distance * (1 - vv / 2) - 14 \<le> real_of_int (sum_list (deltas fwd))"
    using lo len by linarith
  have q: "real_of_int (distance div 4) \<le> real_of_int distance / 4"
    by (metis of_int_numeral real_of_int_div4)
  have back_lo: "- (real_of_int distance / 4) - 9 \<le> real_of_int (sum_list (deltas bk))"
    using shape q d0 by auto
  have tot: "real_of_int distance * (3 / 4 - vv / 2) - 23
       \<le> real_of_int (sum_list (deltas (fwd @ bk)))"
    using fwd_lo back_lo by (simp add: deltas_append algebra_simps)
  have small: "bk = [] \<or> (\<exists>b p. bk = [ScrollBy (- b), Sleep p] \<and> 10 \<le> b \<and>
        b \<le> distance div 4 + 9 \<and> b < distance)"
    using shape assms(2) by auto
  from run sb have "ScrollHumanLike cfg g distance = (fwd @ bk, Inr g')"
    by simp
  with nn small tot show ?thesis
    unfolding vv_def by blast
qed

theorem scroll_back_smaller_witness:
  "\<exists>fwd back g'. ScrollHumanLike (scrolling_cfg (3 / 5) 1) (sconst 0) 500 =
       (fwd @ back, Inr g') \<and>
     (\<forall>x \<in> set (deltas fwd). 0 \<le> x) \<and>
     (back = [] \<or> (\<exists>b p. back = [ScrollBy (- b), Sleep p] \<and> 10 \<le> b \<and>
        b \<le> 134 \<and> b < 500)) \<and>
     202 \<le> real_of_int (sum_list (deltas (fwd @ back)))"
  using scroll_back_smaller [of "scrolling_cfg (3 / 5) 1" 500 "sconst 0"]
  by (simp add: scrolling_cfg_def example_cfg_def)

text \<open>
  Claim C6, as stated, fails: for the positive distance 4 the scroll back is by 10
  pixels, more than the distance, and the steps sum to \<open>- 10\<close>.
\<close>

theorem scroll_back_counterexample:
  "ScrollHumanLike (scrolling_cfg (1 / 2) 1) (sconst 0) 4 =
     ([ScrollBy 0, Sleep 50000000, ScrollBy 0, Sleep 50000000, ScrollBy 0,
       Sleep 50000000, ScrollBy 0, Sleep 50000000, ScrollBy 0, Sleep 50000000,
       ScrollBy (- 10), Sleep 500000000],
      Inr (sconst 0)) \<and>
   sum_list (deltas (fst (ScrollHumanLike (scrolling_cfg (1 / 2) 1) (sconst 0) 4))) = - 10"
  by (simp add: ScrollHumanLike_def scrolling_cfg_def example_cfg_def Intn_def Float64_def
      scroll_back_def trunc_def Millisecond_def five go_div_def)

section \<open>Mouse movement\<close>

text \<open>
  The curve starts at the middle of the window and ends at the target; a micro-correction
  moves a point by at most one pixel in each coordinate; the easing weight grows from 0
  to 1 along the path.
\<close>

lemma bezierCurve_ends:
  "bezierCurve 0 p0 p1 p2 p3 = p0" "bezierCurve 1 p0 p1 p2 p3 = p3"
  by (simp_all add: bezierCurve_def)

lemma curve_point_ends:
  "curve_point cv 0 = (currentX cv, currentY cv)"
  "curve_point cv 1 = (targetX cv, targetY cv)"
  by (simp_all add: curve_point_def bezierCurve_ends)

lemma plan_curve_start:
  "currentX (fst (plan_curve box vp g)) = innerWidth vp / 2 \<and>
   currentY (fst (plan_curve box vp g)) = innerHeight vp / 2"
  by (simp add: plan_curve_def case_prod_beta Let_def)

lemma jitter_off: "jitter False p g = (p, g)"
  by (simp add: jitter_def)

lemma jitter_near:
  "\<bar>fst (fst (jitter micro p g)) - fst p\<bar> \<le> 1 \<and>
   \<bar>snd (fst (jitter micro p g)) - snd p\<bar> \<le> 1"
proof -
  have "\<bar>(fst (Float64 h) - 1 / 2) * 2\<bar> \<le> 1" for h
    using Float64_range [of h] by (simp add: abs_le_iff algebra_simps)
  then show ?thesis
    by (simp add: jitter_def case_prod_beta Let_def)
qed

lemma ease_range: "0 \<le> t \<Longrightarrow> t \<le> 1 \<Longrightarrow> 0 \<le> ease t \<and> ease t \<le> 1"
proof
  assume t: "0 \<le> t" "t \<le> 1"
  then show "0 \<le> ease t"
    by (simp add: ease_def)
  have "1 - ease t = (1 - t) * (1 - t) * (1 + 2 * t)"
    by (simp add: ease_def algebra_simps)
  moreover have "0 \<le> (1 - t) * (1 - t) * (1 + 2 * t)"
    using t by simp
  ultimately show "ease t \<le> 1"
    by linarith
qed

lemma ease_mono:
  assumes "0 \<le> s" "s \<le> t" "t \<le> 1"
  shows "ease s \<le> ease t"
proof -
  have "ease t - ease s =
      (t - s) * (t * (1 - s) + s * (1 - t) + 2 * t * (1 - t) + 2 * s * (1 - s))"
    by (simp add: ease_def algebra_simps)
  moreover have
    "0 \<le> (t - s) * (t * (1 - s) + s * (1 - t) + 2 * t * (1 - t) + 2 * s * (1 - s))"
    using assms by (intro mult_nonneg_nonneg add_nonneg_nonneg) auto
  ultimately show ?thesis
    by linarith
qed

lemma move_step_shape:
  assumes "0 < steps" "int i \<le> steps"
  shows "\<exists>x y d g'. move_step micro cv steps g i = ([MouseMove x y, Sleep d], Inr g') \<and>
     \<bar>x - fst (curve_point cv (real i / real_of_int steps))\<bar> \<le> 1 \<and>
     \<bar>y - snd (curve_point cv (real i / real_of_int steps))\<bar> \<le> 1 \<and>
     (\<not> micro \<longrightarrow> (x, y) = curve_point cv (real i / real_of_int steps)) \<and>
     2000000 \<le> d"
proof -
  define t where "t = real i / real_of_int steps"
  define j where "j = jitter micro (curve_point cv t) g"
  have t: "0 \<le> t" "t \<le> 1"
    using assms by (simp_all add: t_def)
  obtain k g2 where k: "Intn (snd j) 6 = Inr (k, g2)"
    by (simp add: Intn_def)
  have rk: "0 \<le> k \<and> k < 6"
    using Intn_range [OF k] by simp
  define f where
    "f = real_of_int (4 + k) * (1 / 2 + ease t * (8 / 10)) * real_of_int Millisecond"
  have "1 / 2 \<le> 1 / 2 + ease t * (8 / 10)"
    using ease_range [OF t] by simp
  moreover have "4 \<le> real_of_int (4 + k)"
    using rk by simp
  ultimately have "4 * (1 / 2) \<le> real_of_int (4 + k) * (1 / 2 + ease t * (8 / 10))"
    by (intro mult_mono) simp_all
  then have f: "2000000 \<le> f"
    by (simp add: f_def Millisecond_def)
  then have d: "2000000 \<le> trunc f"
    by (simp add: trunc_def le_floor_iff)
  have run: "move_step micro cv steps g i =
      ([MouseMove (fst (fst j)) (snd (fst j)), Sleep (trunc f)], Inr g2)"
    using k by (simp add: move_step_def Let_def case_prod_beta j_def t_def f_def)
  have near: "\<bar>fst (fst j) - fst (curve_point cv t)\<bar> \<le> 1 \<and>
      \<bar>snd (fst j) - snd (curve_point cv t)\<bar> \<le> 1"
    unfolding j_def by (rule jitter_near)
  have off: "\<not> micro \<longrightarrow> (fst (fst j), snd (fst j)) = curve_point cv t"
    by (simp add: j_def jitter_def)
  from run near off d show ?thesis
    unfolding t_def by blast
qed

lemma move_loop_shape:
  assumes "0 < steps" "\<forall>i \<in> set is. int i \<le> steps"
  shows "\<exists>evs g'. move_loop micro cv steps g is = (evs, Inr g') \<and>
     list_all2 (\<lambda>i p. \<bar>fst p - fst (curve_point cv (real i / real_of_int steps))\<bar> \<le> 1 \<and>
        \<bar>snd p - snd (curve_point cv (real i / real_of_int steps))\<bar> \<le> 1 \<and>
        (\<not> micro \<longrightarrow> p = curve_point cv (real i / real_of_int steps))) is (points evs) \<and>
     length (delays evs) = length is \<and> (\<forall>d \<in> set (delays evs). 2000000 \<le> d)"
  using assms(2)
proof (induction "is" arbitrary: g)
  case Nil
  then show ?case by simp
next
  case (Cons i js)
  from Cons.prems have i: "int i \<le> steps" and js: "\<forall>i \<in> set js. int i \<le> steps"
    by simp_all
  from move_step_shape [OF assms(1) i, of micro cv g] obtain x y d g1 where
    step: "move_step micro cv steps g i = ([MouseMove x y, Sleep d], Inr g1)"
    and near: "\<bar>x - fst (curve_point cv (real i / real_of_int steps))\<bar> \<le> 1"
      "\<bar>y - snd (curve_point cv (real i / real_of_int steps))\<bar> \<le> 1"
      "\<not> micro \<longrightarrow> (x, y) = curve_point cv (real i / real_of_int steps)"
    and d: "2000000 \<le> d"
    by blast
  from Cons.IH [OF js, of g1] obtain evs g' where
    rest: "move_loop micro cv steps g1 js = (evs, Inr g')"
    and ih: "list_all2 (\<lambda>i p.
        \<bar>fst p - fst (curve_point cv (real i / real_of_int steps))\<bar> \<le> 1 \<and>
        \<bar>snd p - snd (curve_point cv (real i / real_of_int steps))\<bar> \<le> 1 \<and>
        (\<not> micro \<longrightarrow> p = curve_point cv (real i / real_of_int steps))) js (points evs)"
      "length (delays evs) = length js" "\<forall>d \<in> set (delays evs). 2000000 \<le> d"
    by blast
  have "move_loop micro cv steps g (i # js) = (MouseMove x y # Sleep d # evs, Inr g')"
    using step rest by simp
  with near d ih show ?case
    by simp
qed

lemma draw_steps_range:
  "\<exists>steps g'. draw_steps g = Inr (steps, g') \<and> 25 \<le> steps \<and> steps \<le> 39"
proof -
  obtain k g' where k: "Intn g 15 = Inr (k, g')"
    by (simp add: Intn_def)
  with Intn_range [OF k] show ?thesis
    by (simp add: draw_steps_def)
qed

lemma move_loop_first:
  "move_loop micro cv steps g (i # js) = (evs, r) \<Longrightarrow>
   points evs \<noteq> [] \<and>
   hd (points evs) = fst (jitter micro (curve_point cv (real i / real_of_int steps)) g)"
  by (auto simp: move_step_def Intn_def Let_def case_prod_beta split: sum.splits prod.splits)

lemma plan_curve_example:
  "plan_curve example_box example_window (sconst 0) =
     (\<lparr>currentX = 640, currentY = 360, cp1X = 685, cp1Y = 335, cp2X = 745, cp2Y = 320,
       targetX = 840, targetY = 310\<rparr>, sconst 0)"
  by (simp add: plan_curve_def example_box_def example_window_def Float64_def)

lemma draw_steps_example: "draw_steps (sconst 0) = Inr (25, sconst 0)"
  by (simp add: draw_steps_def Intn_def)

text \<open>
  Claim C3, as the code has it. \<open>moveMouseToElement\<close> returns. It draws a number of
  steps between 25 and 39 and moves the mouse once more than that, so to between 26 and
  40 points, with a pause after each. The first point lies within one pixel, in each
  coordinate, of the start (the middle of the window) and the last within one pixel of
  the target; without micro-corrections they are the start and the target. Every pause
  is at least 2 ms long, hence positive.
\<close>

theorem moveMouseToElement_trajectory:
  "\<exists>evs g' steps g7.
     draw_steps (snd (plan_curve box vp g)) = Inr (steps, g7) \<and>
     25 \<le> steps \<and> steps \<le> 39 \<and>
     moveMouseToElement cfg box vp g = (evs, Inr g') \<and>
     int (length (points evs)) = steps + 1 \<and> int (length (delays evs)) = steps + 1 \<and>
     \<bar>fst (hd (points evs)) - innerWidth vp / 2\<bar> \<le> 1 \<and>
     \<bar>snd (hd (points evs)) - innerHeight vp / 2\<bar> \<le> 1 \<and>
     \<bar>fst (last (points evs)) - targetX (fst (plan_curve box vp g))\<bar> \<le> 1 \<and>
     \<bar>snd (last (points evs)) - targetY (fst (plan_curve box vp g))\<bar> \<le> 1 \<and>
     (\<not> MicroCorrections (MouseMovement (Stealth cfg)) \<longrightarrow>
        hd (points evs) = (innerWidth vp / 2, innerHeight vp / 2) \<and>
        last (points evs) = (targetX (fst (plan_curve box vp g)),
                             targetY (fst (plan_curve box vp g)))) \<and>
     (\<forall>d \<in> set (delays evs). 2000000 \<le> d)"
proof -
  define cv where "cv = fst (plan_curve box vp g)"
  define micro where "micro = MicroCorrections (MouseMovement (Stealth cfg))"
  obtain steps g7 where ds: "draw_steps (snd (plan_curve box vp g)) = Inr (steps, g7)"
    and st: "25 \<le> steps" "steps \<le> 39"
    using draw_steps_range by blast
  define n where "n = nat steps"
  have n: "int n = steps" "0 < n"
    using st by (simp_all add: n_def)
  have pos: "0 < steps" using st by simp
  have idx: "\<forall>i \<in> set [0 ..< Suc n]. int i \<le> steps"
    using n by auto
  from move_loop_shape [OF pos idx, of micro cv g7] obtain evs g' where
    run: "move_loop micro cv steps g7 [0 ..< Suc n] = (evs, Inr g')"
    and pts: "list_all2 (\<lambda>i p.
        \<bar>fst p - fst (curve_point cv (real i / real_of_int steps))\<bar> \<le> 1 \<and>
        \<bar>snd p - snd (curve_point cv (real i / real_of_int steps))\<bar> \<le> 1 \<and>
        (\<not> micro \<longrightarrow> p = curve_point cv (real i / real_of_int steps)))
        [0 ..< Suc n] (points evs)"
    and len: "length (delays evs) = length [0 ..< Suc n]"
    and dl: "\<forall>d \<in> set (delays evs). 2000000 \<le> d"
    by blast
  have lp: "length (points evs) = Suc n"
    using list_all2_lengthD [OF pts] by simp
  have ne: "points evs \<noteq> []"
    using lp by auto
  have first: "\<bar>fst (points evs ! 0) - fst (curve_point cv 0)\<bar> \<le> 1 \<and>
        \<bar>snd (points evs ! 0) - snd (curve_point cv 0)\<bar> \<le> 1 \<and>
        (\<not> micro \<longrightarrow> points evs ! 0 = curve_point cv 0)"
    using list_all2_nthD [OF pts, of 0] by (simp del: upt_Suc)
  have "real n / real_of_int steps = 1"
    using n by (simp flip: n(1))
  then have final: "\<bar>fst (points evs ! n) - fst (curve_point cv 1)\<bar> \<le> 1 \<and>
        \<bar>snd (points evs ! n) - snd (curve_point cv 1)\<bar> \<le> 1 \<and>
        (\<not> micro \<longrightarrow> points evs ! n = curve_point cv 1)"
    using list_all2_nthD [OF pts, of n] by (simp del: upt_Suc)
  have hd: "hd (points evs) = points evs ! 0"
    using ne by (simp add: hd_conv_nth)
  have last: "last (points evs) = points evs ! n"
    using ne lp by (simp add: last_conv_nth)
  have start: "curve_point cv 0 = (innerWidth vp / 2, innerHeight vp / 2)"
    using plan_curve_start [of box vp g] by (simp add: curve_point_ends cv_def)
  have target: "curve_point cv 1 = (targetX cv, targetY cv)"
    by (simp add: curve_point_ends)
  have whole: "moveMouseToElement cfg box vp g = (evs, Inr g')"
    using ds run by (simp add: moveMouseToElement_def case_prod_beta cv_def micro_def n_def)
  from dl ds st whole lp len n first final hd last start target show ?thesis
    unfolding cv_def micro_def
    by (intro exI [of _ evs] exI [of _ g'] exI [of _ steps] exI [of _ g7]) simp
qed

theorem moveMouseToElement_trajectory_witness:
  "\<exists>evs g'. moveMouseToElement (mouse_cfg False) example_box example_window (sconst 0)
       = (evs, Inr g') \<and>
     length (points evs) = 26 \<and> length (delays evs) = 26 \<and>
     hd (points evs) = (640, 360) \<and> last (points evs) = (840, 310) \<and>
     (\<forall>d \<in> set (delays evs). 2000000 \<le> d)"
proof -
  from moveMouseToElement_trajectory
    [of example_box example_window "sconst 0" "mouse_cfg False"]
  obtain evs g' steps g7 where
    ds: "draw_steps (snd (plan_curve example_box example_window (sconst 0))) = Inr (steps, g7)"
    and run: "moveMouseToElement (mouse_cfg False) example_box example_window (sconst 0)
       = (evs, Inr g')"
    and len: "int (length (points evs)) = steps + 1" "int (length (delays evs)) = steps + 1"
    and ends: "\<not> MicroCorrections (MouseMovement (Stealth (mouse_cfg False))) \<longrightarrow>
        hd (points evs) = (innerWidth example_window / 2, innerHeight example_window / 2) \<and>
        last (points evs) =
          (targetX (fst (plan_curve example_box example_window (sconst 0))),
           targetY (fst (plan_curve example_box example_window (sconst 0))))"
    and pos: "\<forall>d \<in> set (delays evs). 2000000 \<le> d"
    by blast
  from ds have "steps = 25"
    by (simp add: plan_curve_example draw_steps_example)
  with len have "length (points evs) = 26" "length (delays evs) = 26"
    by simp_all
  have centre: "innerWidth example_window / 2 = 640"
    "innerHeight example_window / 2 = 360"
    by (simp_all add: example_window_def)
  have off: "\<not> MicroCorrections (MouseMovement (Stealth (mouse_cfg False)))"
    by (simp add: mouse_cfg_def)
  from ends off have "hd (points evs) = (640, 360)" "last (points evs) = (840, 310)"
    by (simp_all add: plan_curve_example centre)
  with run pos \<open>length (points evs) = 26\<close> \<open>length (delays evs) = 26\<close>
  show ?thesis
    by blast
qed

text \<open>
  Claim C3, as stated, fails: with micro-corrections on and every draw 0 the first point
  is \<open>(639, 359)\<close>, one pixel off the start \<open>(640, 360)\<close> in each coordinate.
\<close>

theorem moveMouseToElement_start_counterexample:
  "hd (points (fst (moveMouseToElement (mouse_cfg True) example_box example_window (sconst 0))))
     = (639, 359) \<and>
   (innerWidth example_window / 2, innerHeight example_window / 2) = (640, 360)"
proof -
  define cv where "cv = fst (plan_curve example_box example_window (sconst 0))"
  have run: "moveMouseToElement (mouse_cfg True) example_box example_window (sconst 0) =
      move_loop True cv 25 (sconst 0) (0 # [1 ..< 26])"
    by (simp add: moveMouseToElement_def plan_curve_example draw_steps_example mouse_cfg_def
        example_cfg_def cv_def upt_conv_Cons del: upt_Suc move_loop.simps)
  have "hd (points (fst (move_loop True cv 25 (sconst 0) (0 # [1 ..< 26])))) =
      fst (jitter True (curve_point cv (real 0 / real_of_int 25)) (sconst 0))"
    using move_loop_first [of True cv 25 "sconst 0" 0 "[1 ..< 26]"] 
    by (metis prod.collapse)
  also have "\<dots> = (639, 359)"
    by (simp add: jitter_def Float64_def curve_point_ends cv_def plan_curve_example)
  finally show ?thesis
    using run by (simp add: example_window_def)
qed

text \<open>Without micro-corrections and with every draw 0, each step draws the base 4.\<close>

lemma move_loop_zero_draws:
  "move_loop False cv steps (sconst 0) js =
     (concat (map (\<lambda>i. [MouseMove (fst (curve_point cv (real i / real_of_int steps)))
                                  (snd (curve_point cv (real i / real_of_int steps))),
                        Sleep (trunc (4 * (1 / 2 + ease (real i / real_of_int steps) * (8 / 10))
                                      * 1000000))]) js),
      Inr (sconst 0))"
  by (induction js)
     (simp_all add: move_step_def jitter_def Intn_def Let_def case_prod_beta Millisecond_def)

lemma delays_steps:
  "delays (concat (map (\<lambda>i. [MouseMove (a i) (b i), Sleep (f i)]) js)) = map f js"
  by (induction js) simp_all

lemma points_steps:
  "points (concat (map (\<lambda>i. [MouseMove (a i) (b i), Sleep (f i)]) js)) =
     map (\<lambda>i. (a i, b i)) js"
  by (induction js) simp_all

text \<open>
  Claim C4 on a path of 25 steps, without micro-corrections and with the same base (4 ms)
  at every step: the pause after the first point is 2 ms, the pause in the middle of the
  path (step 12) is about 3.5 ms and the pause after the last point is 5.2 ms. The
  motion is fastest at the start and slowest at the end; it is not slower at the start
  than in the middle (\<open>ease_mono\<close>: the weight never decreases along the path).
\<close>

theorem moveMouseToElement_fast_start:
  "delays (fst (moveMouseToElement (mouse_cfg False) example_box example_window (sconst 0)))
     ! 0 = 2000000 \<and>
   delays (fst (moveMouseToElement (mouse_cfg False) example_box example_window (sconst 0)))
     ! 12 = 3504051 \<and>
   delays (fst (moveMouseToElement (mouse_cfg False) example_box example_window (sconst 0)))
     ! 25 = 5200000"
proof -
  define cv where "cv = fst (plan_curve example_box example_window (sconst 0))"
  have run: "moveMouseToElement (mouse_cfg False) example_box example_window (sconst 0) =
      move_loop False cv 25 (sconst 0) [0 ..< 26]"
    by (simp add: moveMouseToElement_def plan_curve_example draw_steps_example mouse_cfg_def
        example_cfg_def cv_def del: upt_Suc move_loop.simps)
  have d: "delays (fst (moveMouseToElement (mouse_cfg False) example_box example_window
        (sconst 0))) =
      map (\<lambda>i. trunc (4 * (1 / 2 + ease (real i / real_of_int 25) * (8 / 10)) * 1000000))
        [0 ..< 26]"
    unfolding run move_loop_zero_draws by (simp only: fst_conv delays_steps)
  show ?thesis
    unfolding d by (simp add: ease_def trunc_def del: upt_Suc)
qed

end
